theory Spec2Isabelle
  imports Main
begin

section \<open>Instrumenting Odoo with the New Relic agent: a model of \<open>newrelic/__init__.py\<close>\<close>

text \<open>
  The module patches process-wide objects of the Odoo framework at start-up. The model
  threads that process-wide state through every function as a record, \<open>world\<close>, and
  returns with it whether the function returned or raised. The exceptions of the model are
  those Python raises on the data the module itself handles (a missing dictionary key, an
  assignment to a read-only attribute, a failed unpacking, a method missing on a value, an
  index out of range, a failed import) and those the agent library raises from
  \<open>initialize\<close>, \<open>wrap_background_task\<close> and \<open>wrap_function_trace\<close>: the state says for
  each such call whether the agent raises and what; a call that returns is recorded.
\<close>

subsection \<open>Python values, exceptions, results\<close>

datatype pyval = PNone | PBool bool | PInt int | PStr string

text \<open>Truth value testing, as \<open>if x:\<close> does it.\<close>

fun truthy :: "pyval \<Rightarrow> bool" where
  "truthy PNone = False"
| "truthy (PBool b) = b"
| "truthy (PInt i) = (i \<noteq> 0)"
| "truthy (PStr s) = (s \<noteq> [])"

datatype exn =
    KeyError string
  | AttributeError string
  | ValueError string
  | IndexError string
  | ImportError string
  | ConfigurationError string

datatype 'a result = Returned 'a | Raised exn

subsection \<open>Strings\<close>

text \<open>
  A character of the model is a code point below 256. \<open>isspace\<close> lists the code points
  of that range that \<open>str.strip()\<close> removes.
\<close>

definition isspace :: "char \<Rightarrow> bool" where
  "isspace c = (c \<in> {CHR 0x09, CHR 0x0A, CHR 0x0B, CHR 0x0C, CHR 0x0D,
                      CHR 0x1C, CHR 0x1D, CHR 0x1E, CHR 0x1F, CHR 0x20,
                      CHR 0x85, CHR 0xA0})"

definition strip :: "string \<Rightarrow> string" where
  "strip s = rev (dropWhile isspace (rev (dropWhile isspace s)))"

text \<open>\<open>s.split(sep)\<close> for a one-character separator: one more part than separators.\<close>

fun str_split :: "char \<Rightarrow> string \<Rightarrow> string list" where
  "str_split sep [] = [[]]"
| "str_split sep (c # cs) =
     (if c = sep then [] # str_split sep cs
      else (case str_split sep cs of
              p # ps \<Rightarrow> (c # p) # ps
            | [] \<Rightarrow> [[c]]))"

definition startswith :: "string \<Rightarrow> string \<Rightarrow> bool" where
  "startswith s p = (take (length p) s = p)"

subsection \<open>The process-wide state\<close>

text \<open>
  A WSGI callable is the framework's own (\<open>Framework\<close>, by name) or the agent's wrapper
  around one. The wrapper is a transparent proxy: the attributes of the wrapped object
  stay readable and writable through it.
\<close>

datatype wsgi = Framework string | WSGIApplicationWrapper wsgi

text \<open>A dispatcher's \<open>handle_error\<close>: the framework's own or the module's wrapper around one.\<close>

datatype handler = Framework_handler string | Nr_wrapper_handle_error handler

datatype agent_call =
    Initialize "pyval list"
  | Wrap_background_task string string
  | Wrap_function_trace string string

datatype log_entry =
    Info string
  | Info_applying_tracing "string list"
  | Warning string
  | Warning_exc exn
  | Exception exn

text \<open>The five functions \<open>post_load\<close> can call; \<open>invoked\<close> below records each entry.\<close>

datatype patch_function =
    F_initialize_agent
  | F_patch_wsgi
  | F_patch_bus_controller
  | F_patch_methods
  | F_setup_error_handling

text \<open>\<open>service.server.server\<close>, when there is one: its \<open>app\<close> and that object's marker.\<close>

record server =
  app :: wsgi
  app_nr_instrumented :: "pyval option"

record world =
  config :: "string \<Rightarrow> pyval option"
    \<comment> \<open>\<open>odoo.tools.config\<close>\<close>
  environ :: "string \<Rightarrow> string option"
    \<comment> \<open>\<open>os.environ\<close>\<close>
  Application :: wsgi
    \<comment> \<open>what \<open>http.Application\<close> is bound to\<close>
  Application_call :: wsgi
    \<comment> \<open>\<open>http.Application.__call__\<close>\<close>
  Application_call_readonly :: bool
    \<comment> \<open>assigning \<open>http.Application.__call__\<close> raises AttributeError\<close>
  Application_nr_instrumented :: "pyval option"
    \<comment> \<open>\<open>http.Application._nr_instrumented\<close>; \<open>None\<close> when the attribute is absent\<close>
  service_server :: "server option"
    \<comment> \<open>\<open>service.server.server\<close>; \<open>None\<close> when it is \<open>None\<close>\<close>
  bus_importable :: bool
    \<comment> \<open>\<open>import odoo.addons.bus.controllers.main\<close> succeeds\<close>
  BaseModel_dir :: "(string \<times> bool) list"
    \<comment> \<open>\<open>dir(odoo.models.BaseModel)\<close>, each name with \<open>callable(getattr(BaseModel, name))\<close>\<close>
  HttpDispatcher_handle_error :: handler
  JsonRPCDispatcher_handle_error :: handler
  agent_raises :: "agent_call \<Rightarrow> exn option"
    \<comment> \<open>what a call into \<open>newrelic.agent\<close> raises; \<open>None\<close> when the call returns\<close>
  agent_calls :: "agent_call list"
    \<comment> \<open>the calls into \<open>newrelic.agent\<close> that returned, oldest first\<close>
  logged :: "log_entry list"
    \<comment> \<open>what went to \<open>_logger\<close>, oldest first\<close>
  invoked :: "patch_function list"
    \<comment> \<open>history of function entries (ghost state: the source has no such list)\<close>

definition log_entry :: "log_entry \<Rightarrow> world \<Rightarrow> world" where
  "log_entry e w = w\<lparr>logged := logged w @ [e]\<rparr>"

definition agent :: "agent_call \<Rightarrow> world \<Rightarrow> world" where
  "agent c w = w\<lparr>agent_calls := agent_calls w @ [c]\<rparr>"

text \<open>A call into the agent: it raises what the state says, or returns and is recorded.\<close>

definition call_agent :: "agent_call \<Rightarrow> world \<Rightarrow> unit result \<times> world" where
  "call_agent c w =
     (case agent_raises w c of
        Some e \<Rightarrow> (Raised e, w)
      | None \<Rightarrow> (Returned (), agent c w))"

definition enter :: "patch_function \<Rightarrow> world \<Rightarrow> world" where
  "enter f w = w\<lparr>invoked := invoked w @ [f]\<rparr>"

text \<open>\<open>config[key]\<close> raises KeyError on a missing key; \<open>config.get(key)\<close> gives \<open>None\<close>.\<close>

definition config_getitem :: "world \<Rightarrow> string \<Rightarrow> exn + pyval" where
  "config_getitem w key = (case config w key of None \<Rightarrow> Inl (KeyError key) | Some v \<Rightarrow> Inr v)"

definition config_get :: "world \<Rightarrow> string \<Rightarrow> pyval" where
  "config_get w key = (case config w key of None \<Rightarrow> PNone | Some v \<Rightarrow> v)"

subsection \<open>\<open>initialize_agent\<close>\<close>




subsection \<open>\<open>patch_wsgi\<close>\<close>

text \<open>Reading a marker attribute: \<open>False\<close> when the attribute is absent.\<close>

definition instrumented :: "pyval option \<Rightarrow> pyval" where
  "instrumented marker = (case marker of None \<Rightarrow> PBool False | Some v \<Rightarrow> v)"

text \<open>Lines 41 to 49: the running server's application object, when there is a server.\<close>

definition patch_server :: "world \<Rightarrow> world" where
  "patch_server w =
     (case service_server w of
        None \<Rightarrow> w
      | Some srv \<Rightarrow>
          if \<not> truthy (instrumented (app_nr_instrumented srv))
          then w\<lparr>service_server :=
                   Some (srv\<lparr>app := WSGIApplicationWrapper (app srv),
                             app_nr_instrumented := Some (PBool True)\<rparr>)\<rparr>
          else w)"

definition patch_wsgi :: "world \<Rightarrow> bool result \<times> world" where
  "patch_wsgi w0 =
     (let w = enter F_patch_wsgi w0 in
      if truthy (instrumented (Application_nr_instrumented w))
      then (Returned False, log_entry (Info ''NewRelic instrumented already'') w)
      else if \<not> Application_call_readonly w
      then (Returned True,
            w\<lparr>Application_call := WSGIApplicationWrapper (Application_call w),
              Application_nr_instrumented := Some (PBool True)\<rparr>)
      else
        (let exc = AttributeError ''__call__'';
             w1 = patch_server (w\<lparr>Application := WSGIApplicationWrapper (Application w)\<rparr>)
         in case config_getitem w1 ''workers'' of
              Inl e \<Rightarrow> (Raised e, w1)
            | Inr workers \<Rightarrow>
                (let w2 = (if \<not> truthy workers
                           then log_entry (Warning
                                  ''Failed to patch the WSGI application. Try loading newrelic as a server wide module.'')
                                  (log_entry (Warning_exc exc) w1)
                           else w1)
                 in (Returned True, w2\<lparr>Application_nr_instrumented := Some (PBool True)\<rparr>))))"

subsection \<open>\<open>patch_bus_controller\<close>\<close>


subsection \<open>\<open>patch_methods\<close>\<close>

text \<open>Line 76: the environment variable first, else the configuration entry, else \<open>None\<close>.\<close>

definition nr_odoo_trace :: "world \<Rightarrow> pyval" where
  "nr_odoo_trace w =
     (case environ w ''NEW_RELIC_ODOO_TRACE'' of
        Some s \<Rightarrow> PStr s
      | None \<Rightarrow> config_get w ''new_relic_odoo_trace'')"

text \<open>
  Lines 78 to 83, which stand before the \<open>try\<close>: a value that is neither \<open>None\<close> nor a
  string has no \<open>strip\<close> method.
\<close>

definition nr_patches :: "world \<Rightarrow> exn + string list" where
  "nr_patches w =
     (case nr_odoo_trace w of
        PNone \<Rightarrow> Inr [''odoo.models.BaseModel:limited'']
      | PStr s \<Rightarrow> Inr (str_split CHR '','' (strip s))
      | _ \<Rightarrow> Inl (AttributeError ''strip''))"

text \<open>\<open>patch_base, patch_type = patch.split(':')\<close>: exactly two parts, or ValueError.\<close>

definition unpack_pair :: "string list \<Rightarrow> exn + string \<times> string" where
  "unpack_pair parts =
     (case parts of
        [a, b] \<Rightarrow> Inr (a, b)
      | [] \<Rightarrow> Inl (ValueError ''not enough values to unpack'')
      | [a] \<Rightarrow> Inl (ValueError ''not enough values to unpack'')
      | _ \<Rightarrow> Inl (ValueError ''too many values to unpack''))"

definition limited :: "string list" where
  "limited = [''BaseModel.create'', ''BaseModel.read'', ''BaseModel.read_group'',
              ''BaseModel.write'', ''BaseModel.unlink'',
              ''BaseModel.search'', ''BaseModel.search_read'', ''BaseModel.search_count'']"

text \<open>Lines 88 to 109: \<open>_module\<close> (\<open>None\<close> when it stays \<open>None\<close>) and \<open>_paths\<close> of one pair.\<close>

definition trace_paths :: "world \<Rightarrow> string \<Rightarrow> string \<Rightarrow> string option \<times> string list" where
  "trace_paths w patch_base patch_type =
     (if patch_base = ''odoo.models.BaseModel'' then
        (Some ''odoo.models'',
         if patch_type = ''all'' then
           map (\<lambda>(func, c). ''BaseModel.'' @ func)
             (filter (\<lambda>(func, c). c \<and> \<not> startswith func ''__'') (BaseModel_dir w))
         else if patch_type = ''public'' then
           map (\<lambda>(func, c). ''BaseModel.'' @ func)
             (filter (\<lambda>(func, c). c \<and> \<not> startswith func ''_'') (BaseModel_dir w))
         else if patch_type = ''limited'' then limited
         else [])
      else (None, []))"

text \<open>Lines 110 to 112; the loop ends at the first call that raises.\<close>

fun wrap_function_traces :: "string \<Rightarrow> string list \<Rightarrow> world \<Rightarrow> unit result \<times> world" where
  "wrap_function_traces m [] w = (Returned (), w)"
| "wrap_function_traces m (path # paths) w =
     (case call_agent (Wrap_function_trace m path) w of
        (Raised e, w1) \<Rightarrow> (Raised e, w1)
      | (Returned u, w1) \<Rightarrow> wrap_function_traces m paths w1)"

text \<open>
  The loop of line 86; it ends at the first pair that does not unpack and at the first
  call into the agent that raises.
\<close>

fun apply_patches :: "string list \<Rightarrow> world \<Rightarrow> unit result \<times> world" where
  "apply_patches [] w = (Returned (), w)"
| "apply_patches (patch # patches) w =
     (case unpack_pair (str_split CHR '':'' patch) of
        Inl e \<Rightarrow> (Raised e, w)
      | Inr (patch_base, patch_type) \<Rightarrow>
          (case trace_paths w patch_base patch_type of
             (None, paths) \<Rightarrow> apply_patches patches w
           | (Some m, paths) \<Rightarrow>
               (case wrap_function_traces m paths w of
                  (Raised e, w1) \<Rightarrow> (Raised e, w1)
                | (Returned u, w1) \<Rightarrow> apply_patches patches w1)))"

definition patch_methods :: "world \<Rightarrow> unit result \<times> world" where
  "patch_methods w0 =
     (let w = enter F_patch_methods w0 in
      case nr_patches w of
        Inl e \<Rightarrow> (Raised e, w)
      | Inr patches \<Rightarrow>
          (case apply_patches patches (log_entry (Info_applying_tracing patches) w) of
             (Raised e, w') \<Rightarrow> (Returned (), log_entry (Exception e) w')
           | (Returned u, w') \<Rightarrow> (Returned (), w')))"

subsection \<open>\<open>setup_error_handling\<close>\<close>

text \<open>
  What a request sees: the agent's current transaction, the exception being handled
  (\<open>sys.exc_info()\<close>: class, value, traceback) and what was reported to the agent.
\<close>

datatype exc_value = No_exception | HTTPException pyval | Other_exception string

datatype agent_event =
    Notice_error string pyval
  | FunctionTrace_enter string string
  | FunctionTrace_exit string string

record request =
  transaction :: "string option"
    \<comment> \<open>\<open>newrelic.agent.current_transaction()\<close>\<close>
  exc_info :: "string \<times> exc_value \<times> string"
  agent_events :: "agent_event list"

text \<open>An \<open>HTTPException\<close> carries its \<open>code\<close>; the function ends without \<open>return\<close> otherwise.\<close>

fun status_code :: "string \<Rightarrow> exc_value \<Rightarrow> string \<Rightarrow> pyval" where
  "status_code exc (HTTPException code) tb = code"
| "status_code exc v tb = PNone"

text \<open>
  \<open>transaction.notice_error(status_code=status_code)\<close>: the agent applies the callback to
  \<open>sys.exc_info()\<close>; the event keeps the code it was given.
\<close>

definition notice_error :: "string \<Rightarrow> request \<Rightarrow> request" where
  "notice_error t s =
     (case exc_info s of
        (exc, v, tb) \<Rightarrow> s\<lparr>agent_events := agent_events s @ [Notice_error t (status_code exc v tb)]\<rparr>)"

text \<open>
  The closure \<open>handle_error\<close> of \<open>_nr_wrapper_handle_error(wrapped)\<close>. \<open>callable_name\<close> is the
  agent's; \<open>args[1]\<close> raises IndexError on fewer than two positional arguments; the
  \<open>with\<close> block leaves the trace whether \<open>wrapped\<close> returns or raises.
\<close>

definition handle_error ::
  "('a \<Rightarrow> string) \<Rightarrow> ('a list \<Rightarrow> 'k \<Rightarrow> request \<Rightarrow> 'r result \<times> request) \<Rightarrow>
   'a list \<Rightarrow> 'k \<Rightarrow> request \<Rightarrow> 'r result \<times> request" where
  "handle_error callable_name wrapped args kwargs s =
     (case transaction s of
        None \<Rightarrow> wrapped args kwargs s
      | Some t \<Rightarrow>
          (let s1 = notice_error t s in
           if length args < 2 then (Raised (IndexError ''tuple index out of range''), s1)
           else
             (let name = callable_name (args ! 1);
                  s2 = s1\<lparr>agent_events := agent_events s1 @ [FunctionTrace_enter t name]\<rparr>
              in case wrapped args kwargs s2 of
                   (r, s3) \<Rightarrow>
                     (r, s3\<lparr>agent_events := agent_events s3 @ [FunctionTrace_exit t name]\<rparr>))))"

text \<open>Calling a dispatcher's \<open>handle_error\<close>, given the framework's own handlers by name.\<close>

fun call_handler ::
  "('a \<Rightarrow> string) \<Rightarrow> (string \<Rightarrow> 'a list \<Rightarrow> 'k \<Rightarrow> request \<Rightarrow> 'r result \<times> request) \<Rightarrow>
   handler \<Rightarrow> 'a list \<Rightarrow> 'k \<Rightarrow> request \<Rightarrow> 'r result \<times> request" where
  "call_handler callable_name framework (Framework_handler n) = framework n"
| "call_handler callable_name framework (Nr_wrapper_handle_error h) =
     handle_error callable_name (call_handler callable_name framework h)"


subsection \<open>\<open>post_load\<close>\<close>


subsection \<open>Example states\<close>

text \<open>A process at start-up: nothing configured, nothing patched, no server yet.\<close>

definition fresh :: world where
  "fresh =
     \<lparr>config = (\<lambda>k. None),
      environ = (\<lambda>k. None),
      Application = Framework ''odoo.http.Application'',
      Application_call = Framework ''odoo.http.Application.__call__'',
      Application_call_readonly = False,
      Application_nr_instrumented = None,
      service_server = None,
      bus_importable = True,
      BaseModel_dir =
        [(''__init__'', True), (''_name'', False), (''_read'', True), (''browse'', True),
         (''env'', False), (''search'', True)],
      HttpDispatcher_handle_error = Framework_handler ''HttpDispatcher.handle_error'',
      JsonRPCDispatcher_handle_error = Framework_handler ''JsonRPCDispatcher.handle_error'',
      agent_raises = (\<lambda>c. None),
      agent_calls = [],
      logged = [],
      invoked = []\<rparr>"

definition instrumented_already :: world where
  "instrumented_already = fresh\<lparr>Application_nr_instrumented := Some (PBool True)\<rparr>"

text \<open>
  Another middleware came first and made \<open>__call__\<close> read-only; a threaded server runs.
\<close>

definition behind_sentry :: world where
  "behind_sentry =
     fresh\<lparr>config := [''workers'' \<mapsto> PInt 0],
           Application_call_readonly := True,
           service_server := Some \<lparr>app = Framework ''odoo.http.root'', app_nr_instrumented = None\<rparr>\<rparr>"

text \<open>A multi-process server, nothing in the way of the assignment to \<open>__call__\<close>.\<close>

definition prefork :: world where
  "prefork = fresh\<lparr>config := [''workers'' \<mapsto> PInt 4]\<rparr>"



definition trace_public :: world where
  "trace_public = fresh\<lparr>environ := [''NEW_RELIC_ODOO_TRACE'' \<mapsto> ''odoo.models.BaseModel:public'']\<rparr>"

text \<open>A well-formed pair, then one without the separator.\<close>

definition trace_malformed :: world where
  "trace_malformed =
     fresh\<lparr>config := [''new_relic_odoo_trace'' \<mapsto>
                         PStr ''odoo.models.BaseModel:limited,odoo.models.BaseModel'']\<rparr>"

definition trace_empty :: world where
  "trace_empty = fresh\<lparr>config := [''new_relic_odoo_trace'' \<mapsto> PStr []]\<rparr>"




text \<open>Requests that handle a 404 and a \<open>ValueError\<close>, outside and inside a transaction.\<close>

definition outside_transaction :: request where
  "outside_transaction =
     \<lparr>transaction = None,
      exc_info = (''NotFound'', HTTPException (PInt 404), ''traceback''),
      agent_events = []\<rparr>"

definition not_found_in_transaction :: request where
  "not_found_in_transaction =
     \<lparr>transaction = Some ''WebTransaction'',
      exc_info = (''NotFound'', HTTPException (PInt 404), ''traceback''),
      agent_events = []\<rparr>"

definition value_error_in_transaction :: request where
  "value_error_in_transaction =
     \<lparr>transaction = Some ''WebTransaction'',
      exc_info = (''ValueError'', Other_exception ''ValueError'', ''traceback''),
      agent_events = []\<rparr>"

text \<open>A framework handler for the examples: it answers and reports nothing.\<close>

definition answering :: "string list \<Rightarrow> unit \<Rightarrow> request \<Rightarrow> string result \<times> request" where
  "answering args kwargs s = (Returned ''response'', s)"

text \<open>
  The agent calls one well-formed pair of the trace setting asks for; used to state what
  a partly applied setting has wrapped.
\<close>

definition wraps_of :: "world \<Rightarrow> string \<Rightarrow> agent_call list" where
  "wraps_of w patch =
     (case str_split CHR '':'' patch of
        [patch_base, patch_type] \<Rightarrow>
          (case trace_paths w patch_base patch_type of
             (Some m, paths) \<Rightarrow> map (Wrap_function_trace m) paths
           | (None, paths) \<Rightarrow> [])
      | _ \<Rightarrow> [])"

section \<open>Properties\<close>

subsection \<open>The dispatcher patcher\<close>

lemma marker_after_patch:
  "fst (patch_wsgi w) = Returned True \<Longrightarrow>
   Application_nr_instrumented (snd (patch_wsgi w)) = Some (PBool True)"
  by (auto simp: patch_wsgi_def Let_def enter_def log_entry_def config_getitem_def
           split: if_splits option.splits sum.splits)

lemma patch_wsgi_short_circuit:
  "truthy (instrumented (Application_nr_instrumented w)) \<Longrightarrow>
   patch_wsgi w =
     (Returned False,
      w\<lparr>logged := logged w @ [Info ''NewRelic instrumented already''],
        invoked := invoked w @ [F_patch_wsgi]\<rparr>)"
  by (simp add: patch_wsgi_def Let_def enter_def log_entry_def)

text \<open>
  C1. In every state whose marker on \<open>http.Application\<close> holds a true value, \<open>patch_wsgi\<close>
  returns \<open>False\<close> and leaves the state as it was but for one log line (and the entry in
  the call history): \<open>http.Application\<close>, its \<open>__call__\<close> and the server's application are
  not wrapped. A call that returned \<open>True\<close> leaves such a state, so the call after it is
  that no-op.
\<close>

theorem patch_wsgi_second_call_noop:
  "(truthy (instrumented (Application_nr_instrumented w)) \<longrightarrow>
      patch_wsgi w =
        (Returned False,
         w\<lparr>logged := logged w @ [Info ''NewRelic instrumented already''],
           invoked := invoked w @ [F_patch_wsgi]\<rparr>))
   \<and> (fst (patch_wsgi w) = Returned True \<longrightarrow>
        patch_wsgi (snd (patch_wsgi w)) =
          (Returned False,
           (snd (patch_wsgi w))
             \<lparr>logged := logged (snd (patch_wsgi w)) @ [Info ''NewRelic instrumented already''],
              invoked := invoked (snd (patch_wsgi w)) @ [F_patch_wsgi]\<rparr>))"
proof (intro conjI impI)
  assume "truthy (instrumented (Application_nr_instrumented w))"
  then show "patch_wsgi w =
        (Returned False,
         w\<lparr>logged := logged w @ [Info ''NewRelic instrumented already''],
           invoked := invoked w @ [F_patch_wsgi]\<rparr>)"
    by (rule patch_wsgi_short_circuit)
next
  assume "fst (patch_wsgi w) = Returned True"
  then have "Application_nr_instrumented (snd (patch_wsgi w)) = Some (PBool True)"
    by (rule marker_after_patch)
  then have "truthy (instrumented (Application_nr_instrumented (snd (patch_wsgi w))))"
    by (simp add: instrumented_def)
  then show "patch_wsgi (snd (patch_wsgi w)) =
          (Returned False,
           (snd (patch_wsgi w))
             \<lparr>logged := logged (snd (patch_wsgi w)) @ [Info ''NewRelic instrumented already''],
              invoked := invoked (snd (patch_wsgi w)) @ [F_patch_wsgi]\<rparr>)"
    by (rule patch_wsgi_short_circuit)
qed

theorem patch_wsgi_second_call_noop_witness:
  "truthy (instrumented (Application_nr_instrumented instrumented_already))
   \<and> fst (patch_wsgi instrumented_already) = Returned False
   \<and> Application_call (snd (patch_wsgi instrumented_already)) = Framework ''odoo.http.Application.__call__''
   \<and> fst (patch_wsgi fresh) = Returned True
   \<and> fst (patch_wsgi (snd (patch_wsgi fresh))) = Returned False
   \<and> Application_call (snd (patch_wsgi (snd (patch_wsgi fresh)))) =
       WSGIApplicationWrapper (Framework ''odoo.http.Application.__call__'')"
proof -
  have h1: "truthy (instrumented (Application_nr_instrumented instrumented_already))"
    by (simp add: instrumented_already_def fresh_def instrumented_def)
  have h2: "fst (patch_wsgi fresh) = Returned True"
    by (simp add: patch_wsgi_def fresh_def instrumented_def enter_def Let_def)
  have w1: "Application_call (snd (patch_wsgi fresh)) =
      WSGIApplicationWrapper (Framework ''odoo.http.Application.__call__'')"
    by (simp add: patch_wsgi_def fresh_def instrumented_def enter_def Let_def)
  from patch_wsgi_second_call_noop [of instrumented_already] h1
  have a: "patch_wsgi instrumented_already =
        (Returned False,
         instrumented_already\<lparr>logged := logged instrumented_already @ [Info ''NewRelic instrumented already''],
           invoked := invoked instrumented_already @ [F_patch_wsgi]\<rparr>)"
    by blast
  from patch_wsgi_second_call_noop [of fresh] h2
  have b: "patch_wsgi (snd (patch_wsgi fresh)) =
          (Returned False,
           (snd (patch_wsgi fresh))
             \<lparr>logged := logged (snd (patch_wsgi fresh)) @ [Info ''NewRelic instrumented already''],
              invoked := invoked (snd (patch_wsgi fresh)) @ [F_patch_wsgi]\<rparr>)"
    by blast
  show ?thesis
    using h1 h2 w1 by (simp add: a b) (simp add: instrumented_already_def fresh_def)
qed


lemma patch_wsgi_False:
  "fst (patch_wsgi w) = Returned False \<longleftrightarrow> truthy (instrumented (Application_nr_instrumented w))"
  by (auto simp: patch_wsgi_def Let_def enter_def config_getitem_def
           split: option.splits sum.splits)

lemma patch_wsgi_True:
  "\<not> truthy (instrumented (Application_nr_instrumented w)) \<Longrightarrow>
   \<not> Application_call_readonly w \<or> config w ''workers'' \<noteq> None \<Longrightarrow>
   fst (patch_wsgi w) = Returned True"
  by (auto simp: patch_wsgi_def Let_def enter_def config_getitem_def patch_server_def
           split: option.splits sum.splits)

lemma patch_wsgi_KeyError:
  "\<not> truthy (instrumented (Application_nr_instrumented w)) \<Longrightarrow>
   Application_call_readonly w \<Longrightarrow> config w ''workers'' = None \<Longrightarrow>
   fst (patch_wsgi w) = Raised (KeyError ''workers'')"
  by (auto simp: patch_wsgi_def Let_def enter_def config_getitem_def patch_server_def
           split: option.splits sum.splits)

lemma patch_wsgi_wraps:
  "fst (patch_wsgi w) = Returned True \<Longrightarrow>
   (if Application_call_readonly w
    then Application (snd (patch_wsgi w)) = WSGIApplicationWrapper (Application w)
    else Application_call (snd (patch_wsgi w)) = WSGIApplicationWrapper (Application_call w))"
  by (auto simp: patch_wsgi_def Let_def enter_def log_entry_def config_getitem_def patch_server_def
           split: if_splits option.splits sum.splits)

text \<open>
  C2. \<open>patch_wsgi\<close> returns \<open>False\<close> exactly on the short-circuit path, and every return
  of \<open>True\<close> leaves the marker of \<open>http.Application\<close> set to \<open>True\<close>. When the marker is not
  set a patch is attempted and the call returns \<open>True\<close> with the marker set, whichever
  branch ran: \<open>__call__\<close> wrapped in place, or, where that attribute is read-only, the class
  \<open>http.Application\<close> wrapped. The fallback branch reads \<open>config["workers"]\<close> by
  subscript: \<open>odoo.tools.config\<close> holds an entry for every option the framework
  registers, \<open>workers\<close> among them, and the theorem takes that entry as given there
  (without it the subscript raises, which is \<open>patch_wsgi_KeyError\<close>).
\<close>

theorem patch_wsgi_returns:
  "(fst (patch_wsgi w) = Returned False \<longleftrightarrow> truthy (instrumented (Application_nr_instrumented w)))
   \<and> (fst (patch_wsgi w) = Returned True \<longrightarrow>
        Application_nr_instrumented (snd (patch_wsgi w)) = Some (PBool True))
   \<and> (\<not> truthy (instrumented (Application_nr_instrumented w)) \<and>
        (\<not> Application_call_readonly w \<or> config w ''workers'' \<noteq> None) \<longrightarrow>
        fst (patch_wsgi w) = Returned True
        \<and> Application_nr_instrumented (snd (patch_wsgi w)) = Some (PBool True)
        \<and> (if Application_call_readonly w
            then Application (snd (patch_wsgi w)) = WSGIApplicationWrapper (Application w)
            else Application_call (snd (patch_wsgi w)) =
                   WSGIApplicationWrapper (Application_call w)))"
  using patch_wsgi_False [of w] patch_wsgi_True [of w] marker_after_patch [of w]
    patch_wsgi_wraps [of w]
  by blast

theorem patch_wsgi_returns_witness:
  "\<not> truthy (instrumented (Application_nr_instrumented prefork))
   \<and> \<not> Application_call_readonly prefork
   \<and> fst (patch_wsgi prefork) = Returned True
   \<and> Application_nr_instrumented (snd (patch_wsgi prefork)) = Some (PBool True)
   \<and> Application_call (snd (patch_wsgi prefork)) =
       WSGIApplicationWrapper (Framework ''odoo.http.Application.__call__'')
   \<and> \<not> truthy (instrumented (Application_nr_instrumented behind_sentry))
   \<and> Application_call_readonly behind_sentry
   \<and> config behind_sentry ''workers'' \<noteq> None
   \<and> fst (patch_wsgi behind_sentry) = Returned True
   \<and> Application_nr_instrumented (snd (patch_wsgi behind_sentry)) = Some (PBool True)
   \<and> Application (snd (patch_wsgi behind_sentry)) =
       WSGIApplicationWrapper (Framework ''odoo.http.Application'')
   \<and> truthy (instrumented (Application_nr_instrumented instrumented_already))
   \<and> fst (patch_wsgi instrumented_already) = Returned False"
proof -
  have f: "\<not> truthy (instrumented (Application_nr_instrumented prefork))"
      "\<not> Application_call_readonly prefork"
      "Application_call prefork = Framework ''odoo.http.Application.__call__''"
    by (simp_all add: prefork_def fresh_def instrumented_def)
  have s: "\<not> truthy (instrumented (Application_nr_instrumented behind_sentry))"
      "Application_call_readonly behind_sentry" "config behind_sentry ''workers'' \<noteq> None"
      "Application behind_sentry = Framework ''odoo.http.Application''"
    by (simp_all add: behind_sentry_def fresh_def instrumented_def)
  have i: "truthy (instrumented (Application_nr_instrumented instrumented_already))"
    by (simp add: instrumented_already_def fresh_def instrumented_def)
  show ?thesis
    using f s i patch_wsgi_returns [of prefork] patch_wsgi_returns [of behind_sentry]
      patch_wsgi_returns [of instrumented_already]
    by simp
qed

subsection \<open>The agent bootstrapper\<close>













subsection \<open>The error handlers\<close>

text \<open>
  C4. With no current transaction the wrapper is the wrapped handler: same arguments, same
  result (returned or raised), same request state after it, so nothing is reported to the
  agent that the handler did not report itself. The same holds of a dispatcher's patched
  \<open>handle_error\<close>.
\<close>

theorem handle_error_pass_through:
  "transaction s = None \<Longrightarrow>
   handle_error callable_name wrapped args kwargs s = wrapped args kwargs s
   \<and> call_handler callable_name framework (Nr_wrapper_handle_error h) args kwargs s =
       call_handler callable_name framework h args kwargs s"
  by (simp add: handle_error_def)

theorem handle_error_pass_through_witness:
  "transaction outside_transaction = None
   \<and> handle_error id answering [''dispatcher'', ''exc''] () outside_transaction =
       (Returned ''response'', outside_transaction)
   \<and> agent_events (snd (handle_error id answering [''dispatcher'', ''exc''] () outside_transaction)) = []"
proof -
  have h: "transaction outside_transaction = None"
    by (simp add: outside_transaction_def)
  have e: "agent_events outside_transaction = []"
    by (simp add: outside_transaction_def)
  from handle_error_pass_through [OF h, of id answering "[''dispatcher'', ''exc'']" "()"
      "\<lambda>n. answering" "Framework_handler ''HttpDispatcher.handle_error''"]
  have "handle_error id answering [''dispatcher'', ''exc''] () outside_transaction =
      answering [''dispatcher'', ''exc''] () outside_transaction"
    by (rule conjunct1)
  then show ?thesis
    using h e by (simp add: answering_def)
qed

text \<open>
  C5. \<open>status_code\<close> gives the \<open>code\<close> of an \<open>HTTPException\<close> and \<open>None\<close> for any other
  value. With a current transaction, the wrapper reports the error with that code, computed
  from the exception being handled, before anything else it does.
\<close>

theorem reported_status_code:
  "status_code exc (HTTPException code) tb = code
   \<and> status_code exc (Other_exception n) tb = PNone
   \<and> status_code exc No_exception tb = PNone
   \<and> (transaction s = Some t \<and> exc_info s = (exc, v, tb) \<longrightarrow>
        handle_error callable_name wrapped args kwargs s =
          (let reported = s\<lparr>agent_events := agent_events s @
                   [Notice_error t (case v of HTTPException c \<Rightarrow> c | _ \<Rightarrow> PNone)]\<rparr>
           in if length args < 2 then (Raised (IndexError ''tuple index out of range''), reported)
              else (case wrapped args kwargs
                           (reported\<lparr>agent_events := agent_events reported @
                              [FunctionTrace_enter t (callable_name (args ! 1))]\<rparr>) of
                      (r, s') \<Rightarrow>
                        (r, s'\<lparr>agent_events := agent_events s' @
                               [FunctionTrace_exit t (callable_name (args ! 1))]\<rparr>))))"
  by (cases v) (simp_all add: handle_error_def notice_error_def Let_def)

theorem reported_status_code_witness:
  "transaction not_found_in_transaction = Some ''WebTransaction''
   \<and> exc_info not_found_in_transaction = (''NotFound'', HTTPException (PInt 404), ''traceback'')
   \<and> handle_error id answering [''dispatcher'', ''exc''] () not_found_in_transaction =
       (Returned ''response'',
        not_found_in_transaction\<lparr>agent_events :=
          [Notice_error ''WebTransaction'' (PInt 404),
           FunctionTrace_enter ''WebTransaction'' ''exc'',
           FunctionTrace_exit ''WebTransaction'' ''exc'']\<rparr>)
   \<and> transaction value_error_in_transaction = Some ''WebTransaction''
   \<and> exc_info value_error_in_transaction = (''ValueError'', Other_exception ''ValueError'', ''traceback'')
   \<and> handle_error id answering [''dispatcher'', ''exc''] () value_error_in_transaction =
       (Returned ''response'',
        value_error_in_transaction\<lparr>agent_events :=
          [Notice_error ''WebTransaction'' PNone,
           FunctionTrace_enter ''WebTransaction'' ''exc'',
           FunctionTrace_exit ''WebTransaction'' ''exc'']\<rparr>)"
proof -
  have n: "transaction not_found_in_transaction = Some ''WebTransaction''"
      "exc_info not_found_in_transaction = (''NotFound'', HTTPException (PInt 404), ''traceback'')"
      "agent_events not_found_in_transaction = []"
    by (simp_all add: not_found_in_transaction_def)
  have v: "transaction value_error_in_transaction = Some ''WebTransaction''"
      "exc_info value_error_in_transaction = (''ValueError'', Other_exception ''ValueError'', ''traceback'')"
      "agent_events value_error_in_transaction = []"
    by (simp_all add: value_error_in_transaction_def)
  show ?thesis
    using n v
      reported_status_code [of "''NotFound''" "PInt 404" "''traceback''" "''x''"
        not_found_in_transaction "''WebTransaction''" "HTTPException (PInt 404)"
        id answering "[''dispatcher'', ''exc'']" "()"]
      reported_status_code [of "''ValueError''" "PNone" "''traceback''" "''x''"
        value_error_in_transaction "''WebTransaction''" "Other_exception ''ValueError''"
        id answering "[''dispatcher'', ''exc'']" "()"]
    by (simp add: answering_def Let_def)
qed

subsection \<open>The method tracer\<close>

lemma str_split_not_Nil: "str_split sep s \<noteq> []"
  by (induction s) (auto split: list.splits)

lemma length_str_split: "length (str_split sep s) = Suc (count_list s sep)"
proof (induction s)
  case Nil
  show ?case by simp
next
  case (Cons c cs)
  obtain p ps where "str_split sep cs = p # ps"
    using str_split_not_Nil [of sep cs] by (cases "str_split sep cs") auto
  with Cons show ?case by auto
qed

lemma unpack_pair_Inl:
  "length parts \<noteq> 2 \<Longrightarrow> \<exists>m. unpack_pair parts = Inl (ValueError m)"
  by (auto simp: unpack_pair_def split: list.splits)

lemma unpack_pair_two:
  "length parts = 2 \<Longrightarrow> \<exists>a b. parts = [a, b] \<and> unpack_pair parts = Inr (a, b)"
  by (cases parts; cases "tl parts"; auto simp: unpack_pair_def)

lemma strip_Nil: "strip [] = []"
  by (simp add: strip_def)

lemma nr_patches_empty:
  "nr_odoo_trace w = PStr [] \<Longrightarrow> nr_patches w = Inr [[]]"
  by (simp add: nr_patches_def strip_Nil)

lemma nr_odoo_trace_enter:
  "nr_odoo_trace (enter f w) = nr_odoo_trace w"
  by (simp add: nr_odoo_trace_def enter_def config_get_def split: option.splits)

lemma nr_patches_enter:
  "nr_patches (enter f w) = nr_patches w"
  by (simp add: nr_patches_def nr_odoo_trace_enter)

lemma patch_methods_eq:
  "patch_methods w =
     (case nr_patches w of
        Inl e \<Rightarrow> (Raised e, enter F_patch_methods w)
      | Inr patches \<Rightarrow>
          (case apply_patches patches
                  (log_entry (Info_applying_tracing patches) (enter F_patch_methods w)) of
             (Raised e, w') \<Rightarrow> (Returned (), log_entry (Exception e) w')
           | (Returned u, w') \<Rightarrow> (Returned (), w')))"
  by (simp add: patch_methods_def Let_def nr_patches_enter)

text \<open>
  C10. With the trace setting the empty string, \<open>strip\<close> and \<open>split(',')\<close> give the one
  pair \<open>''\<close>; its \<open>split(':')\<close> has one part, so the unpacking raises ValueError, which the
  handler of line 113 logs. \<open>patch_methods\<close> returns, having logged that and called the
  agent not once: nothing is wrapped.
\<close>

theorem patch_methods_empty_string:
  "nr_odoo_trace w = PStr [] \<Longrightarrow>
   nr_patches w = Inr [[]]
   \<and> unpack_pair (str_split CHR '':'' []) = Inl (ValueError ''not enough values to unpack'')
   \<and> patch_methods w =
       (Returned (),
        w\<lparr>logged := logged w @ [Info_applying_tracing [[]],
                                  Exception (ValueError ''not enough values to unpack'')],
          invoked := invoked w @ [F_patch_methods]\<rparr>)
   \<and> agent_calls (snd (patch_methods w)) = agent_calls w"
  by (simp add: patch_methods_eq nr_patches_empty unpack_pair_def enter_def log_entry_def)

theorem patch_methods_empty_string_witness:
  "nr_odoo_trace trace_empty = PStr []
   \<and> patch_methods trace_empty =
       (Returned (),
        trace_empty\<lparr>logged := [Info_applying_tracing [[]],
                                Exception (ValueError ''not enough values to unpack'')],
                     invoked := [F_patch_methods]\<rparr>)
   \<and> agent_calls (snd (patch_methods trace_empty)) = []"
proof -
  have h: "nr_odoo_trace trace_empty = PStr []"
    by (simp add: nr_odoo_trace_def config_get_def trace_empty_def fresh_def)
  have e: "logged trace_empty = []" "invoked trace_empty = []" "agent_calls trace_empty = []"
    by (simp_all add: trace_empty_def fresh_def)
  show ?thesis
    using patch_methods_empty_string [OF h] h e by simp
qed

lemma wrap_function_traces_returns:
  "\<forall>p \<in> set paths. agent_raises w (Wrap_function_trace m p) = None \<Longrightarrow>
   wrap_function_traces m paths w =
     (Returned (), w\<lparr>agent_calls := agent_calls w @ map (Wrap_function_trace m) paths\<rparr>)"
proof (induction paths arbitrary: w)
  case Nil
  show ?case by simp
next
  case (Cons path paths)
  let ?w1 = "agent (Wrap_function_trace m path) w"
  have "\<forall>p \<in> set paths. agent_raises ?w1 (Wrap_function_trace m p) = None"
    using Cons.prems by (simp add: agent_def)
  then have "wrap_function_traces m paths ?w1 =
     (Returned (), ?w1\<lparr>agent_calls := agent_calls ?w1 @ map (Wrap_function_trace m) paths\<rparr>)"
    by (rule Cons.IH)
  moreover have "call_agent (Wrap_function_trace m path) w = (Returned (), ?w1)"
    using Cons.prems by (simp add: call_agent_def)
  ultimately show ?case by (simp add: agent_def)
qed

lemma wrap_function_traces_prefix:
  "\<exists>k \<le> length paths.
     snd (wrap_function_traces m paths w) =
       w\<lparr>agent_calls := agent_calls w @ map (Wrap_function_trace m) (take k paths)\<rparr>
     \<and> (fst (wrap_function_traces m paths w) = Returned () \<longrightarrow> k = length paths)"
proof (induction paths arbitrary: w)
  case Nil
  show ?case by simp
next
  case (Cons path paths)
  show ?case
  proof (cases "agent_raises w (Wrap_function_trace m path)")
    case (Some e)
    then have "wrap_function_traces m (path # paths) w = (Raised e, w)"
      by (simp add: call_agent_def)
    then show ?thesis by (intro exI [of _ 0]) simp
  next
    case None
    let ?w1 = "agent (Wrap_function_trace m path) w"
    from None have c: "wrap_function_traces m (path # paths) w = wrap_function_traces m paths ?w1"
      by (simp add: call_agent_def)
    from Cons.IH [of ?w1] obtain k where k: "k \<le> length paths"
      "snd (wrap_function_traces m paths ?w1) =
         ?w1\<lparr>agent_calls := agent_calls ?w1 @ map (Wrap_function_trace m) (take k paths)\<rparr>"
      "fst (wrap_function_traces m paths ?w1) = Returned () \<longrightarrow> k = length paths"
      by blast
    show ?thesis
      using k c by (intro exI [of _ "Suc k"]) (simp add: agent_def)
  qed
qed

lemma split_limited:
  "str_split CHR '':'' ''odoo.models.BaseModel:limited'' = [''odoo.models.BaseModel'', ''limited'']"
  by simp

lemma nr_patches_default:
  "environ w ''NEW_RELIC_ODOO_TRACE'' = None \<Longrightarrow> config w ''new_relic_odoo_trace'' = None \<Longrightarrow>
   nr_patches w = Inr [''odoo.models.BaseModel:limited'']"
  by (simp add: nr_patches_def nr_odoo_trace_def config_get_def)

lemma trace_paths_limited:
  "trace_paths w ''odoo.models.BaseModel'' ''limited'' = (Some ''odoo.models'', limited)"
  by (simp add: trace_paths_def)

lemma apply_patches_limited:
  "apply_patches [''odoo.models.BaseModel:limited''] w =
     wrap_function_traces ''odoo.models'' limited w"
  by (simp add: split_limited unpack_pair_def trace_paths_limited split: prod.splits result.splits)

lemma patch_methods_limited_eq:
  assumes "environ w ''NEW_RELIC_ODOO_TRACE'' = None" "config w ''new_relic_odoo_trace'' = None"
  shows "patch_methods w =
     (case wrap_function_traces ''odoo.models'' limited
             (log_entry (Info_applying_tracing [''odoo.models.BaseModel:limited''])
                (enter F_patch_methods w)) of
        (Raised e, w') \<Rightarrow> (Returned (), log_entry (Exception e) w')
      | (Returned u, w') \<Rightarrow> (Returned (), w'))"
  by (simp add: patch_methods_eq nr_patches_default [OF assms] apply_patches_limited
        del: apply_patches.simps)

text \<open>
  C6. With neither the environment variable nor the configuration entry set, the one pair
  is \<open>odoo.models.BaseModel:limited\<close>, which resolves to the eight listed methods of
  \<open>BaseModel\<close> in module \<open>odoo.models\<close>. \<open>patch_methods\<close> returns; where the agent's
  \<open>wrap_function_trace\<close> accepts those eight it has wrapped exactly them, in that order,
  and logged the one line. In any case what it has wrapped is an initial part of that list:
  the loop ends at the first call the agent refuses.
\<close>

theorem patch_methods_default:
  "environ w ''NEW_RELIC_ODOO_TRACE'' = None \<Longrightarrow> config w ''new_relic_odoo_trace'' = None \<Longrightarrow>
   nr_patches w = Inr [''odoo.models.BaseModel:limited'']
   \<and> trace_paths w ''odoo.models.BaseModel'' ''limited'' =
       (Some ''odoo.models'',
        [''BaseModel.create'', ''BaseModel.read'', ''BaseModel.read_group'', ''BaseModel.write'',
         ''BaseModel.unlink'', ''BaseModel.search'', ''BaseModel.search_read'',
         ''BaseModel.search_count''])
   \<and> fst (patch_methods w) = Returned ()
   \<and> ((\<forall>p \<in> set limited. agent_raises w (Wrap_function_trace ''odoo.models'' p) = None) \<longrightarrow>
        patch_methods w =
          (Returned (),
           w\<lparr>agent_calls := agent_calls w @
                [Wrap_function_trace ''odoo.models'' ''BaseModel.create'',
                 Wrap_function_trace ''odoo.models'' ''BaseModel.read'',
                 Wrap_function_trace ''odoo.models'' ''BaseModel.read_group'',
                 Wrap_function_trace ''odoo.models'' ''BaseModel.write'',
                 Wrap_function_trace ''odoo.models'' ''BaseModel.unlink'',
                 Wrap_function_trace ''odoo.models'' ''BaseModel.search'',
                 Wrap_function_trace ''odoo.models'' ''BaseModel.search_read'',
                 Wrap_function_trace ''odoo.models'' ''BaseModel.search_count''],
             logged := logged w @ [Info_applying_tracing [''odoo.models.BaseModel:limited'']],
             invoked := invoked w @ [F_patch_methods]\<rparr>))
   \<and> (\<exists>k \<le> 8. agent_calls (snd (patch_methods w)) =
        agent_calls w @
          take k [Wrap_function_trace ''odoo.models'' ''BaseModel.create'',
                  Wrap_function_trace ''odoo.models'' ''BaseModel.read'',
                  Wrap_function_trace ''odoo.models'' ''BaseModel.read_group'',
                  Wrap_function_trace ''odoo.models'' ''BaseModel.write'',
                  Wrap_function_trace ''odoo.models'' ''BaseModel.unlink'',
                  Wrap_function_trace ''odoo.models'' ''BaseModel.search'',
                  Wrap_function_trace ''odoo.models'' ''BaseModel.search_read'',
                  Wrap_function_trace ''odoo.models'' ''BaseModel.search_count''])"
proof -
  assume a: "environ w ''NEW_RELIC_ODOO_TRACE'' = None" "config w ''new_relic_odoo_trace'' = None"
  let ?w0 = "log_entry (Info_applying_tracing [''odoo.models.BaseModel:limited''])
               (enter F_patch_methods w)"
  note eq = patch_methods_limited_eq [OF a]
  have 1: "nr_patches w = Inr [''odoo.models.BaseModel:limited'']"
    using a by (rule nr_patches_default)
  have 2: "trace_paths w ''odoo.models.BaseModel'' ''limited'' =
       (Some ''odoo.models'',
        [''BaseModel.create'', ''BaseModel.read'', ''BaseModel.read_group'', ''BaseModel.write'',
         ''BaseModel.unlink'', ''BaseModel.search'', ''BaseModel.search_read'',
         ''BaseModel.search_count''])"
    by (simp add: trace_paths_limited limited_def)
  have 3: "fst (patch_methods w) = Returned ()"
    by (simp add: eq split: prod.splits result.splits)
  have 4: "patch_methods w =
          (Returned (),
           w\<lparr>agent_calls := agent_calls w @
                [Wrap_function_trace ''odoo.models'' ''BaseModel.create'',
                 Wrap_function_trace ''odoo.models'' ''BaseModel.read'',
                 Wrap_function_trace ''odoo.models'' ''BaseModel.read_group'',
                 Wrap_function_trace ''odoo.models'' ''BaseModel.write'',
                 Wrap_function_trace ''odoo.models'' ''BaseModel.unlink'',
                 Wrap_function_trace ''odoo.models'' ''BaseModel.search'',
                 Wrap_function_trace ''odoo.models'' ''BaseModel.search_read'',
                 Wrap_function_trace ''odoo.models'' ''BaseModel.search_count''],
             logged := logged w @ [Info_applying_tracing [''odoo.models.BaseModel:limited'']],
             invoked := invoked w @ [F_patch_methods]\<rparr>)"
    if r: "\<forall>p \<in> set limited. agent_raises w (Wrap_function_trace ''odoo.models'' p) = None"
  proof -
    from r have "\<forall>p \<in> set limited. agent_raises ?w0 (Wrap_function_trace ''odoo.models'' p) = None"
      by (simp add: log_entry_def enter_def)
    then have "wrap_function_traces ''odoo.models'' limited ?w0 =
        (Returned (),
         ?w0\<lparr>agent_calls := agent_calls ?w0 @ map (Wrap_function_trace ''odoo.models'') limited\<rparr>)"
      by (rule wrap_function_traces_returns)
    then show ?thesis
      by (simp add: eq) (simp add: limited_def log_entry_def enter_def)
  qed
  have 5: "\<exists>k \<le> 8. agent_calls (snd (patch_methods w)) =
        agent_calls w @
          take k [Wrap_function_trace ''odoo.models'' ''BaseModel.create'',
                  Wrap_function_trace ''odoo.models'' ''BaseModel.read'',
                  Wrap_function_trace ''odoo.models'' ''BaseModel.read_group'',
                  Wrap_function_trace ''odoo.models'' ''BaseModel.write'',
                  Wrap_function_trace ''odoo.models'' ''BaseModel.unlink'',
                  Wrap_function_trace ''odoo.models'' ''BaseModel.search'',
                  Wrap_function_trace ''odoo.models'' ''BaseModel.search_read'',
                  Wrap_function_trace ''odoo.models'' ''BaseModel.search_count'']"
  proof -
    from wrap_function_traces_prefix [of limited "''odoo.models''" ?w0]
    obtain k where k: "k \<le> length limited"
      "snd (wrap_function_traces ''odoo.models'' limited ?w0) =
         ?w0\<lparr>agent_calls := agent_calls ?w0 @
               map (Wrap_function_trace ''odoo.models'') (take k limited)\<rparr>"
      by blast
    have "agent_calls (snd (patch_methods w)) =
        agent_calls (snd (wrap_function_traces ''odoo.models'' limited ?w0))"
      by (simp add: eq log_entry_def split: prod.splits result.splits)
    also have "\<dots> = agent_calls w @ take k (map (Wrap_function_trace ''odoo.models'') limited)"
      unfolding k(2) by (simp add: take_map log_entry_def enter_def)
    finally have "agent_calls (snd (patch_methods w)) =
        agent_calls w @ take k (map (Wrap_function_trace ''odoo.models'') limited)" .
    moreover from k(1) have "k \<le> 8" by (simp add: limited_def)
    ultimately show ?thesis
      by (intro exI [of _ k]) (simp add: limited_def)
  qed
  from 1 2 3 4 5 show ?thesis by blast
qed

theorem patch_methods_default_witness:
  "environ fresh ''NEW_RELIC_ODOO_TRACE'' = None
   \<and> config fresh ''new_relic_odoo_trace'' = None
   \<and> (\<forall>p. agent_raises fresh (Wrap_function_trace ''odoo.models'' p) = None)
   \<and> patch_methods fresh =
       (Returned (),
        fresh\<lparr>agent_calls :=
                [Wrap_function_trace ''odoo.models'' ''BaseModel.create'',
                 Wrap_function_trace ''odoo.models'' ''BaseModel.read'',
                 Wrap_function_trace ''odoo.models'' ''BaseModel.read_group'',
                 Wrap_function_trace ''odoo.models'' ''BaseModel.write'',
                 Wrap_function_trace ''odoo.models'' ''BaseModel.unlink'',
                 Wrap_function_trace ''odoo.models'' ''BaseModel.search'',
                 Wrap_function_trace ''odoo.models'' ''BaseModel.search_read'',
                 Wrap_function_trace ''odoo.models'' ''BaseModel.search_count''],
              logged := [Info_applying_tracing [''odoo.models.BaseModel:limited'']],
              invoked := [F_patch_methods]\<rparr>)"
proof -
  have h: "environ fresh ''NEW_RELIC_ODOO_TRACE'' = None" "config fresh ''new_relic_odoo_trace'' = None"
    by (simp_all add: fresh_def)
  have r: "\<forall>p \<in> set limited. agent_raises fresh (Wrap_function_trace ''odoo.models'' p) = None"
    by (simp add: fresh_def)
  have e: "agent_calls fresh = []" "logged fresh = []" "invoked fresh = []"
    by (simp_all add: fresh_def)
  have r': "\<forall>p. agent_raises fresh (Wrap_function_trace ''odoo.models'' p) = None"
    by (simp add: fresh_def)
  show ?thesis
    using patch_methods_default [OF h] h r r' e by simp
qed

lemma startswith_char: "startswith s [c] \<longleftrightarrow> (\<exists>r. s = c # r)"
  by (cases s) (simp_all add: startswith_def)

lemma trace_paths_cong:
  "BaseModel_dir w' = BaseModel_dir w \<Longrightarrow> trace_paths w' a b = trace_paths w a b"
  by (simp add: trace_paths_def)

lemma split_public:
  "str_split CHR '':'' ''odoo.models.BaseModel:public'' = [''odoo.models.BaseModel'', ''public'']"
  by simp

lemma nr_patches_public:
  "nr_odoo_trace w = PStr ''odoo.models.BaseModel:public'' \<Longrightarrow>
   nr_patches w = Inr [''odoo.models.BaseModel:public'']"
  by (simp add: nr_patches_def strip_def isspace_def)

lemma trace_paths_public:
  "trace_paths w ''odoo.models.BaseModel'' ''public'' =
     (Some ''odoo.models'',
      map (\<lambda>(func, c). ''BaseModel.'' @ func)
        (filter (\<lambda>(func, c). c \<and> \<not> startswith func ''_'') (BaseModel_dir w)))"
  by (simp add: trace_paths_def)

lemma set_public:
  "set (snd (trace_paths w ''odoo.models.BaseModel'' ''public'')) =
     {''BaseModel.'' @ func | func. (func, True) \<in> set (BaseModel_dir w) \<and> (\<forall>r. func \<noteq> CHR ''_'' # r)}"
  by (auto simp: trace_paths_public startswith_char image_iff)

lemma apply_patches_public:
  "apply_patches [''odoo.models.BaseModel:public''] w =
     wrap_function_traces ''odoo.models'' (snd (trace_paths w ''odoo.models.BaseModel'' ''public'')) w"
  by (simp add: split_public unpack_pair_def trace_paths_public split: prod.splits result.splits)

lemma patch_methods_BaseModel_public_eq:
  assumes "nr_odoo_trace w = PStr ''odoo.models.BaseModel:public''"
  shows "patch_methods w =
     (case wrap_function_traces ''odoo.models''
             (snd (trace_paths w ''odoo.models.BaseModel'' ''public''))
             (log_entry (Info_applying_tracing [''odoo.models.BaseModel:public''])
                (enter F_patch_methods w)) of
        (Raised e, w') \<Rightarrow> (Returned (), log_entry (Exception e) w')
      | (Returned u, w') \<Rightarrow> (Returned (), w'))"
proof -
  have "trace_paths (log_entry (Info_applying_tracing [''odoo.models.BaseModel:public''])
                (enter F_patch_methods w)) ''odoo.models.BaseModel'' ''public'' =
        trace_paths w ''odoo.models.BaseModel'' ''public''"
    by (rule trace_paths_cong) (simp add: log_entry_def enter_def)
  then show ?thesis
    by (simp add: patch_methods_eq nr_patches_public [OF assms] apply_patches_public
        del: apply_patches.simps)
qed

text \<open>
  C7. With the trace setting \<open>odoo.models.BaseModel:public\<close> the one pair resolves, in
  module \<open>odoo.models\<close>, to \<open>BaseModel.func\<close> for the names \<open>func\<close> of
  \<open>dir(BaseModel)\<close> whose attribute is callable and which do not start with an
  underscore, and to nothing else. \<open>patch_methods\<close> returns, and every method it has
  wrapped is one of those; where the agent's \<open>wrap_function_trace\<close> accepts them it has
  wrapped them all, in the order of \<open>dir\<close>.
\<close>

theorem patch_methods_public:
  "nr_odoo_trace w = PStr ''odoo.models.BaseModel:public'' \<Longrightarrow>
   nr_patches w = Inr [''odoo.models.BaseModel:public'']
   \<and> fst (trace_paths w ''odoo.models.BaseModel'' ''public'') = Some ''odoo.models''
   \<and> set (snd (trace_paths w ''odoo.models.BaseModel'' ''public'')) =
       {''BaseModel.'' @ func | func.
          (func, True) \<in> set (BaseModel_dir w) \<and> (\<forall>r. func \<noteq> CHR ''_'' # r)}
   \<and> fst (patch_methods w) = Returned ()
   \<and> (\<forall>c \<in> set (agent_calls (snd (patch_methods w))).
        c \<in> set (agent_calls w) \<or>
        (\<exists>func. c = Wrap_function_trace ''odoo.models'' (''BaseModel.'' @ func) \<and>
                (func, True) \<in> set (BaseModel_dir w) \<and> (\<forall>r. func \<noteq> CHR ''_'' # r)))
   \<and> ((\<forall>p \<in> set (snd (trace_paths w ''odoo.models.BaseModel'' ''public'')).
          agent_raises w (Wrap_function_trace ''odoo.models'' p) = None) \<longrightarrow>
        agent_calls (snd (patch_methods w)) =
          agent_calls w @
            map (Wrap_function_trace ''odoo.models'')
              (snd (trace_paths w ''odoo.models.BaseModel'' ''public'')))"
proof -
  assume a: "nr_odoo_trace w = PStr ''odoo.models.BaseModel:public''"
  let ?paths = "snd (trace_paths w ''odoo.models.BaseModel'' ''public'')"
  let ?w0 = "log_entry (Info_applying_tracing [''odoo.models.BaseModel:public''])
               (enter F_patch_methods w)"
  note eq = patch_methods_BaseModel_public_eq [OF a]
  have 1: "nr_patches w = Inr [''odoo.models.BaseModel:public'']"
    using a by (rule nr_patches_public)
  have 2: "fst (trace_paths w ''odoo.models.BaseModel'' ''public'') = Some ''odoo.models''"
    by (simp add: trace_paths_public)
  note 3 = set_public [of w]
  have 4: "fst (patch_methods w) = Returned ()"
    by (simp add: eq split: prod.splits result.splits)
  have calls: "agent_calls (snd (patch_methods w)) =
      agent_calls (snd (wrap_function_traces ''odoo.models'' ?paths ?w0))"
    by (simp add: eq log_entry_def split: prod.splits result.splits)
  have 5: "\<forall>c \<in> set (agent_calls (snd (patch_methods w))).
        c \<in> set (agent_calls w) \<or>
        (\<exists>func. c = Wrap_function_trace ''odoo.models'' (''BaseModel.'' @ func) \<and>
                (func, True) \<in> set (BaseModel_dir w) \<and> (\<forall>r. func \<noteq> CHR ''_'' # r))"
  proof
    fix c assume c: "c \<in> set (agent_calls (snd (patch_methods w)))"
    from wrap_function_traces_prefix [of ?paths "''odoo.models''" ?w0]
    obtain k where k: "snd (wrap_function_traces ''odoo.models'' ?paths ?w0) =
         ?w0\<lparr>agent_calls := agent_calls ?w0 @
               map (Wrap_function_trace ''odoo.models'') (take k ?paths)\<rparr>"
      by blast
    have "agent_calls (snd (patch_methods w)) =
        agent_calls w @ map (Wrap_function_trace ''odoo.models'') (take k ?paths)"
      unfolding calls k by (simp add: log_entry_def enter_def)
    with c have "c \<in> set (agent_calls w) \<or>
        (\<exists>p \<in> set (take k ?paths). c = Wrap_function_trace ''odoo.models'' p)"
      by auto
    then show "c \<in> set (agent_calls w) \<or>
        (\<exists>func. c = Wrap_function_trace ''odoo.models'' (''BaseModel.'' @ func) \<and>
                (func, True) \<in> set (BaseModel_dir w) \<and> (\<forall>r. func \<noteq> CHR ''_'' # r))"
    proof
      assume "c \<in> set (agent_calls w)"
      then show ?thesis ..
    next
      assume "\<exists>p \<in> set (take k ?paths). c = Wrap_function_trace ''odoo.models'' p"
      then obtain p where p: "p \<in> set (take k ?paths)" "c = Wrap_function_trace ''odoo.models'' p"
        by blast
      from p(1) have "p \<in> set ?paths" by (rule in_set_takeD)
      with 3 obtain func where "p = ''BaseModel.'' @ func" "(func, True) \<in> set (BaseModel_dir w)"
          "\<forall>r. func \<noteq> CHR ''_'' # r"
        by blast
      with p(2) show ?thesis by blast
    qed
  qed
  have 6: "agent_calls (snd (patch_methods w)) =
          agent_calls w @ map (Wrap_function_trace ''odoo.models'') ?paths"
    if r: "\<forall>p \<in> set ?paths. agent_raises w (Wrap_function_trace ''odoo.models'' p) = None"
  proof -
    from r have "\<forall>p \<in> set ?paths. agent_raises ?w0 (Wrap_function_trace ''odoo.models'' p) = None"
      by (simp add: log_entry_def enter_def)
    then have "wrap_function_traces ''odoo.models'' ?paths ?w0 =
        (Returned (),
         ?w0\<lparr>agent_calls := agent_calls ?w0 @ map (Wrap_function_trace ''odoo.models'') ?paths\<rparr>)"
      by (rule wrap_function_traces_returns)
    then show ?thesis
      unfolding calls by (simp add: log_entry_def enter_def)
  qed
  from 1 2 3 4 5 6 show ?thesis by blast
qed

theorem patch_methods_public_witness:
  "nr_odoo_trace trace_public = PStr ''odoo.models.BaseModel:public''
   \<and> snd (trace_paths trace_public ''odoo.models.BaseModel'' ''public'') =
       [''BaseModel.browse'', ''BaseModel.search'']
   \<and> agent_calls (snd (patch_methods trace_public)) =
       [Wrap_function_trace ''odoo.models'' ''BaseModel.browse'',
        Wrap_function_trace ''odoo.models'' ''BaseModel.search'']
   \<and> fst (patch_methods trace_public) = Returned ()"
proof -
  have h: "nr_odoo_trace trace_public = PStr ''odoo.models.BaseModel:public''"
    by (simp add: nr_odoo_trace_def trace_public_def fresh_def)
  have p: "snd (trace_paths trace_public ''odoo.models.BaseModel'' ''public'') =
       [''BaseModel.browse'', ''BaseModel.search'']"
    by (simp add: trace_paths_public trace_public_def fresh_def startswith_def)
  have r: "\<forall>p \<in> set (snd (trace_paths trace_public ''odoo.models.BaseModel'' ''public'')).
          agent_raises trace_public (Wrap_function_trace ''odoo.models'' p) = None"
    by (simp add: trace_public_def fresh_def)
  have e: "agent_calls trace_public = []"
    by (simp add: trace_public_def fresh_def)
  show ?thesis
    using patch_methods_public [OF h] h p r e by simp
qed

lemma wraps_of_cong:
  "BaseModel_dir w' = BaseModel_dir w \<Longrightarrow> wraps_of w' = wraps_of w"
  by (rule ext) (simp add: wraps_of_def trace_paths_def split: list.splits)

lemma well_formed_pair:
  "count_list patch CHR '':'' = 1 \<Longrightarrow> \<exists>a b. str_split CHR '':'' patch = [a, b]"
  using unpack_pair_two [of "str_split CHR '':'' patch"] by (simp add: length_str_split) blast

lemma apply_patches_pair:
  "str_split CHR '':'' patch = [a, b] \<Longrightarrow>
   apply_patches (patch # patches) w =
     (case trace_paths w a b of
        (None, paths) \<Rightarrow> apply_patches patches w
      | (Some m, paths) \<Rightarrow>
          (case wrap_function_traces m paths w of
             (Raised e, w1) \<Rightarrow> (Raised e, w1)
           | (Returned u, w1) \<Rightarrow> apply_patches patches w1))"
  by (simp add: unpack_pair_def)

lemma apply_patches_malformed:
  "count_list patch CHR '':'' \<noteq> 1 \<Longrightarrow>
   \<exists>msg. apply_patches (patch # patches) w = (Raised (ValueError msg), w)"
proof -
  assume "count_list patch CHR '':'' \<noteq> 1"
  then have "length (str_split CHR '':'' patch) \<noteq> 2"
    by (simp add: length_str_split)
  then obtain msg where "unpack_pair (str_split CHR '':'' patch) = Inl (ValueError msg)"
    using unpack_pair_Inl by blast
  then show ?thesis by simp
qed

lemma wraps_of_pair:
  "str_split CHR '':'' patch = [a, b] \<Longrightarrow>
   wraps_of w patch =
     (case trace_paths w a b of
        (Some m, paths) \<Rightarrow> map (Wrap_function_trace m) paths
      | (None, paths) \<Rightarrow> [])"
  by (simp add: wraps_of_def)


lemma apply_patches_raised:
  "\<exists>p \<in> set patches. count_list p CHR '':'' \<noteq> 1 \<Longrightarrow>
   \<exists>e. fst (apply_patches patches w) = Raised e"
proof (induction patches arbitrary: w)
  case Nil
  then show ?case by simp
next
  case (Cons patch patches)
  show ?case
  proof (cases "count_list patch CHR '':'' = 1")
    case False
    then obtain msg where "apply_patches (patch # patches) w = (Raised (ValueError msg), w)"
      using apply_patches_malformed by blast
    then show ?thesis by simp
  next
    case True
    then obtain a b where ab: "str_split CHR '':'' patch = [a, b]"
      using well_formed_pair by blast
    from True Cons.prems have "\<exists>p \<in> set patches. count_list p CHR '':'' \<noteq> 1"
      by auto
    then have rest: "\<And>w'. \<exists>e. fst (apply_patches patches w') = Raised e"
      by (rule Cons.IH)
    obtain m paths where tp: "trace_paths w a b = (m, paths)"
      by (cases "trace_paths w a b")
    show ?thesis
    proof (cases m)
      case None
      then have "apply_patches (patch # patches) w = apply_patches patches w"
        by (simp add: apply_patches_pair [OF ab] tp del: apply_patches.simps)
      with rest [of w] show ?thesis by simp
    next
      case (Some mm)
      obtain r w1 where wf: "wrap_function_traces mm paths w = (r, w1)"
        by (cases "wrap_function_traces mm paths w")
      show ?thesis
      proof (cases r)
        case (Raised e)
        then have "apply_patches (patch # patches) w = (Raised e, w1)"
          by (simp add: apply_patches_pair [OF ab] tp Some wf del: apply_patches.simps)
        then show ?thesis by simp
      next
        case (Returned u)
        then have "apply_patches (patch # patches) w = apply_patches patches w1"
          by (simp add: apply_patches_pair [OF ab] tp Some wf del: apply_patches.simps)
        with rest [of w1] show ?thesis by simp
      qed
    qed
  qed
qed

lemma apply_patches_prefix:
  "\<exists>k. snd (apply_patches patches w) =
     w\<lparr>agent_calls := agent_calls w @
          take k (concat (map (wraps_of w)
                    (takeWhile (\<lambda>p. count_list p CHR '':'' = 1) patches)))\<rparr>"
proof (induction patches arbitrary: w)
  case Nil
  show ?case by simp
next
  case (Cons patch patches)
  let ?wf = "\<lambda>p. count_list p CHR '':'' = 1"
  show ?case
  proof (cases "count_list patch CHR '':'' = 1")
    case False
    then obtain msg where "apply_patches (patch # patches) w = (Raised (ValueError msg), w)"
      using apply_patches_malformed by blast
    with False show ?thesis by simp
  next
    case True
    then obtain a b where ab: "str_split CHR '':'' patch = [a, b]"
      using well_formed_pair by blast
    obtain m paths where tp: "trace_paths w a b = (m, paths)"
      by (cases "trace_paths w a b")
    have tw: "takeWhile ?wf (patch # patches) = patch # takeWhile ?wf patches"
      using True by simp
    show ?thesis
    proof (cases m)
      case None
      then have ap: "apply_patches (patch # patches) w = apply_patches patches w"
        by (simp add: apply_patches_pair [OF ab] tp del: apply_patches.simps)
      from None have wr: "wraps_of w patch = []"
        by (simp add: wraps_of_pair [OF ab] tp)
      from Cons.IH [of w] obtain k where
        "snd (apply_patches patches w) =
           w\<lparr>agent_calls := agent_calls w @
                take k (concat (map (wraps_of w) (takeWhile ?wf patches)))\<rparr>"
        by blast
      then have "snd (apply_patches (patch # patches) w) =
           w\<lparr>agent_calls := agent_calls w @
                take k (concat (map (wraps_of w) (takeWhile ?wf (patch # patches))))\<rparr>"
        unfolding ap tw by (simp add: wr)
      then show ?thesis by blast
    next
      case (Some mm)
      have wr: "wraps_of w patch = map (Wrap_function_trace mm) paths"
        by (simp add: wraps_of_pair [OF ab] tp Some)
      obtain r w1 where wf: "wrap_function_traces mm paths w = (r, w1)"
        by (cases "wrap_function_traces mm paths w")
      from wrap_function_traces_prefix [of paths mm w] wf
      obtain k1 where k1: "k1 \<le> length paths"
        "w1 = w\<lparr>agent_calls := agent_calls w @ map (Wrap_function_trace mm) (take k1 paths)\<rparr>"
        "r = Returned () \<longrightarrow> k1 = length paths"
        by auto
      show ?thesis
      proof (cases r)
        case (Raised e)
        then have ap: "apply_patches (patch # patches) w = (Raised e, w1)"
          by (simp add: apply_patches_pair [OF ab] tp Some wf del: apply_patches.simps)
        have "take k1 (concat (map (wraps_of w) (takeWhile ?wf (patch # patches)))) =
            map (Wrap_function_trace mm) (take k1 paths)"
          unfolding tw using k1(1) by (simp add: wr take_map)
        then have "snd (apply_patches (patch # patches) w) =
           w\<lparr>agent_calls := agent_calls w @
                take k1 (concat (map (wraps_of w) (takeWhile ?wf (patch # patches))))\<rparr>"
          by (simp only: ap snd_conv k1(2))
        then show ?thesis by blast
      next
        case (Returned u)
        then have ap: "apply_patches (patch # patches) w = apply_patches patches w1"
          by (simp add: apply_patches_pair [OF ab] tp Some wf del: apply_patches.simps)
        from Returned k1 have w1: "w1 = w\<lparr>agent_calls := agent_calls w @ wraps_of w patch\<rparr>"
          by (simp add: wr)
        have wc: "wraps_of w1 = wraps_of w"
          by (rule wraps_of_cong) (simp add: w1)
        from Cons.IH [of w1] obtain k where
          "snd (apply_patches patches w1) =
             w1\<lparr>agent_calls := agent_calls w1 @
                  take k (concat (map (wraps_of w1) (takeWhile ?wf patches)))\<rparr>"
          by blast
        then have "snd (apply_patches patches w1) =
             w\<lparr>agent_calls := agent_calls w @ wraps_of w patch @
                  take k (concat (map (wraps_of w) (takeWhile ?wf patches)))\<rparr>"
          unfolding wc by (simp add: w1)
        then have "snd (apply_patches (patch # patches) w) =
           w\<lparr>agent_calls := agent_calls w @
                take (length (wraps_of w patch) + k)
                  (concat (map (wraps_of w) (takeWhile ?wf (patch # patches))))\<rparr>"
          unfolding ap tw by simp
        then show ?thesis by blast
      qed
    qed
  qed
qed

lemma apply_patches_exact:
  "\<forall>c. agent_raises w c = None \<Longrightarrow>
   snd (apply_patches patches w) =
     w\<lparr>agent_calls := agent_calls w @
          concat (map (wraps_of w) (takeWhile (\<lambda>p. count_list p CHR '':'' = 1) patches))\<rparr>
   \<and> ((\<exists>p \<in> set patches. count_list p CHR '':'' \<noteq> 1) \<longrightarrow>
        (\<exists>msg. fst (apply_patches patches w) = Raised (ValueError msg)))"
proof (induction patches arbitrary: w)
  case Nil
  show ?case by simp
next
  case (Cons patch patches)
  let ?wf = "\<lambda>p. count_list p CHR '':'' = 1"
  show ?case
  proof (cases "count_list patch CHR '':'' = 1")
    case False
    then obtain msg where "apply_patches (patch # patches) w = (Raised (ValueError msg), w)"
      using apply_patches_malformed by blast
    with False show ?thesis by simp
  next
    case True
    then obtain a b where ab: "str_split CHR '':'' patch = [a, b]"
      using well_formed_pair by blast
    obtain m paths where tp: "trace_paths w a b = (m, paths)"
      by (cases "trace_paths w a b")
    have tw: "takeWhile ?wf (patch # patches) = patch # takeWhile ?wf patches"
      using True by simp
    have ex: "(\<exists>p \<in> set (patch # patches). count_list p CHR '':'' \<noteq> 1) \<longleftrightarrow>
        (\<exists>p \<in> set patches. count_list p CHR '':'' \<noteq> 1)"
      using True by simp
    show ?thesis
    proof (cases m)
      case None
      then have ap: "apply_patches (patch # patches) w = apply_patches patches w"
        by (simp add: apply_patches_pair [OF ab] tp del: apply_patches.simps)
      from None have wr: "wraps_of w patch = []"
        by (simp add: wraps_of_pair [OF ab] tp)
      from Cons.IH [OF Cons.prems] show ?thesis
        unfolding ap tw ex by (simp add: wr)
    next
      case (Some mm)
      have wr: "wraps_of w patch = map (Wrap_function_trace mm) paths"
        by (simp add: wraps_of_pair [OF ab] tp Some)
      let ?w1 = "w\<lparr>agent_calls := agent_calls w @ map (Wrap_function_trace mm) paths\<rparr>"
      from Cons.prems have "\<forall>p \<in> set paths. agent_raises w (Wrap_function_trace mm p) = None"
        by simp
      then have wf: "wrap_function_traces mm paths w = (Returned (), ?w1)"
        by (rule wrap_function_traces_returns)
      then have ap: "apply_patches (patch # patches) w = apply_patches patches ?w1"
        by (simp add: apply_patches_pair [OF ab] tp Some del: apply_patches.simps)
      have wc: "wraps_of ?w1 = wraps_of w"
        by (rule wraps_of_cong) simp
      from Cons.prems have "\<forall>c. agent_raises ?w1 c = None"
        by simp
      from Cons.IH [OF this] show ?thesis
        unfolding ap tw ex wc by (simp add: wr)
    qed
  qed
qed

lemma nr_patches_str:
  "nr_odoo_trace w = PStr s \<Longrightarrow> nr_patches w = Inr (str_split CHR '','' (strip s))"
  by (simp add: nr_patches_def)

text \<open>
  C8. Whatever string the trace setting is, \<open>patch_methods\<close> returns. A pair of the
  setting is malformed when it does not hold exactly one \<open>:\<close>, as a pair without the
  separator. With such a pair in the setting the call logs an exception after the line that
  announces the pairs, and what it has wrapped is an initial part of what the pairs before
  the first malformed one ask for. Where the agent raises from no call, the exception logged
  is the ValueError of the failed unpacking and those earlier pairs are applied in full.
\<close>

theorem patch_methods_malformed:
  "nr_odoo_trace w = PStr s \<Longrightarrow>
   fst (patch_methods w) = Returned ()
   \<and> ((\<exists>p \<in> set (str_split CHR '','' (strip s)). count_list p CHR '':'' \<noteq> 1) \<longrightarrow>
        (\<exists>e. logged (snd (patch_methods w)) =
               logged w @ [Info_applying_tracing (str_split CHR '','' (strip s)), Exception e])
        \<and> (\<exists>k. agent_calls (snd (patch_methods w)) =
               agent_calls w @
                 take k (concat (map (wraps_of w)
                           (takeWhile (\<lambda>p. count_list p CHR '':'' = 1)
                              (str_split CHR '','' (strip s))))))
        \<and> ((\<forall>c. agent_raises w c = None) \<longrightarrow>
             (\<exists>msg. logged (snd (patch_methods w)) =
                      logged w @ [Info_applying_tracing (str_split CHR '','' (strip s)),
                                  Exception (ValueError msg)])
             \<and> agent_calls (snd (patch_methods w)) =
                 agent_calls w @
                   concat (map (wraps_of w)
                             (takeWhile (\<lambda>p. count_list p CHR '':'' = 1)
                                (str_split CHR '','' (strip s))))))"
proof -
  assume a: "nr_odoo_trace w = PStr s"
  let ?patches = "str_split CHR '','' (strip s)"
  let ?wf = "\<lambda>p. count_list p CHR '':'' = 1"
  let ?w0 = "log_entry (Info_applying_tracing ?patches) (enter F_patch_methods w)"
  have eq: "patch_methods w =
     (case apply_patches ?patches ?w0 of
        (Raised e, w') \<Rightarrow> (Returned (), log_entry (Exception e) w')
      | (Returned u, w') \<Rightarrow> (Returned (), w'))"
    by (simp add: patch_methods_eq nr_patches_str [OF a])
  have wc: "wraps_of ?w0 = wraps_of w"
    by (rule wraps_of_cong) (simp add: log_entry_def enter_def)
  have 1: "fst (patch_methods w) = Returned ()"
    by (simp add: eq split: prod.splits result.splits)
  have 2: "\<exists>e. logged (snd (patch_methods w)) =
               logged w @ [Info_applying_tracing ?patches, Exception e]"
    and 3: "\<exists>k. agent_calls (snd (patch_methods w)) =
               agent_calls w @ take k (concat (map (wraps_of w) (takeWhile ?wf ?patches)))"
    if mal: "\<exists>p \<in> set ?patches. count_list p CHR '':'' \<noteq> 1"
  proof -
    from apply_patches_raised [OF mal, of ?w0] obtain e where
      e: "fst (apply_patches ?patches ?w0) = Raised e"
      by blast
    from apply_patches_prefix [of ?patches ?w0] obtain k where
      k: "snd (apply_patches ?patches ?w0) =
           ?w0\<lparr>agent_calls := agent_calls ?w0 @
                 take k (concat (map (wraps_of w) (takeWhile ?wf ?patches)))\<rparr>"
      unfolding wc by blast
    from e k have ap: "apply_patches ?patches ?w0 =
        (Raised e,
         ?w0\<lparr>agent_calls := agent_calls ?w0 @
               take k (concat (map (wraps_of w) (takeWhile ?wf ?patches)))\<rparr>)"
      by (cases "apply_patches ?patches ?w0") simp
    have "logged (snd (patch_methods w)) =
               logged w @ [Info_applying_tracing ?patches, Exception e]"
      unfolding eq ap by (simp add: log_entry_def enter_def)
    then show "\<exists>e. logged (snd (patch_methods w)) =
               logged w @ [Info_applying_tracing ?patches, Exception e]"
      by blast
    have "agent_calls (snd (patch_methods w)) =
               agent_calls w @ take k (concat (map (wraps_of w) (takeWhile ?wf ?patches)))"
      unfolding eq ap by (simp add: log_entry_def enter_def)
    then show "\<exists>k. agent_calls (snd (patch_methods w)) =
               agent_calls w @ take k (concat (map (wraps_of w) (takeWhile ?wf ?patches)))"
      by blast
  qed
  have 4: "\<exists>msg. logged (snd (patch_methods w)) =
               logged w @ [Info_applying_tracing ?patches, Exception (ValueError msg)]"
    and 5: "agent_calls (snd (patch_methods w)) =
               agent_calls w @ concat (map (wraps_of w) (takeWhile ?wf ?patches))"
    if mal: "\<exists>p \<in> set ?patches. count_list p CHR '':'' \<noteq> 1"
      and nf: "\<forall>c. agent_raises w c = None"
  proof -
    from nf have "\<forall>c. agent_raises ?w0 c = None"
      by (simp add: log_entry_def enter_def)
    from apply_patches_exact [OF this, of ?patches] mal obtain msg where
      e: "fst (apply_patches ?patches ?w0) = Raised (ValueError msg)"
      and k: "snd (apply_patches ?patches ?w0) =
           ?w0\<lparr>agent_calls := agent_calls ?w0 @
                 concat (map (wraps_of w) (takeWhile ?wf ?patches))\<rparr>"
      unfolding wc by blast
    from e k have ap: "apply_patches ?patches ?w0 =
        (Raised (ValueError msg),
         ?w0\<lparr>agent_calls := agent_calls ?w0 @
               concat (map (wraps_of w) (takeWhile ?wf ?patches))\<rparr>)"
      by (cases "apply_patches ?patches ?w0") simp
    have "logged (snd (patch_methods w)) =
               logged w @ [Info_applying_tracing ?patches, Exception (ValueError msg)]"
      unfolding eq ap by (simp add: log_entry_def enter_def)
    then show "\<exists>msg. logged (snd (patch_methods w)) =
               logged w @ [Info_applying_tracing ?patches, Exception (ValueError msg)]"
      by blast
    show "agent_calls (snd (patch_methods w)) =
               agent_calls w @ concat (map (wraps_of w) (takeWhile ?wf ?patches))"
      unfolding eq ap by (simp add: log_entry_def enter_def)
  qed
  from 1 2 3 4 5 show ?thesis by blast
qed

theorem patch_methods_malformed_witness:
  "nr_odoo_trace trace_malformed = PStr ''odoo.models.BaseModel:limited,odoo.models.BaseModel''
   \<and> str_split CHR '','' (strip ''odoo.models.BaseModel:limited,odoo.models.BaseModel'') =
       [''odoo.models.BaseModel:limited'', ''odoo.models.BaseModel'']
   \<and> count_list ''odoo.models.BaseModel'' CHR '':'' \<noteq> 1
   \<and> (\<forall>c. agent_raises trace_malformed c = None)
   \<and> fst (patch_methods trace_malformed) = Returned ()
   \<and> (\<exists>msg. logged (snd (patch_methods trace_malformed)) =
         [Info_applying_tracing [''odoo.models.BaseModel:limited'', ''odoo.models.BaseModel''],
          Exception (ValueError msg)])
   \<and> agent_calls (snd (patch_methods trace_malformed)) =
       [Wrap_function_trace ''odoo.models'' ''BaseModel.create'',
        Wrap_function_trace ''odoo.models'' ''BaseModel.read'',
        Wrap_function_trace ''odoo.models'' ''BaseModel.read_group'',
        Wrap_function_trace ''odoo.models'' ''BaseModel.write'',
        Wrap_function_trace ''odoo.models'' ''BaseModel.unlink'',
        Wrap_function_trace ''odoo.models'' ''BaseModel.search'',
        Wrap_function_trace ''odoo.models'' ''BaseModel.search_read'',
        Wrap_function_trace ''odoo.models'' ''BaseModel.search_count'']"
proof -
  let ?s = "''odoo.models.BaseModel:limited,odoo.models.BaseModel''"
  have h: "nr_odoo_trace trace_malformed = PStr ?s"
    by (simp add: nr_odoo_trace_def config_get_def trace_malformed_def fresh_def)
  have sp: "str_split CHR '','' (strip ?s) =
       [''odoo.models.BaseModel:limited'', ''odoo.models.BaseModel'']"
    by (simp add: strip_def isspace_def)
  have c: "count_list ''odoo.models.BaseModel'' CHR '':'' \<noteq> 1"
      "count_list ''odoo.models.BaseModel:limited'' CHR '':'' = 1"
    by simp_all
  have nf: "\<forall>c. agent_raises trace_malformed c = None"
    by (simp add: trace_malformed_def fresh_def)
  have e: "agent_calls trace_malformed = []" "logged trace_malformed = []"
    by (simp_all add: trace_malformed_def fresh_def)
  have wr: "wraps_of trace_malformed ''odoo.models.BaseModel:limited'' =
      map (Wrap_function_trace ''odoo.models'') limited"
    by (simp add: wraps_of_pair [OF split_limited] trace_paths_limited)
  have mal: "\<exists>p \<in> set (str_split CHR '','' (strip ?s)). count_list p CHR '':'' \<noteq> 1"
    unfolding sp using c by simp
  from patch_methods_malformed [OF h] mal nf
  have r: "fst (patch_methods trace_malformed) = Returned ()"
    "\<exists>msg. logged (snd (patch_methods trace_malformed)) =
        logged trace_malformed @
          [Info_applying_tracing (str_split CHR '','' (strip ?s)), Exception (ValueError msg)]"
    "agent_calls (snd (patch_methods trace_malformed)) =
        agent_calls trace_malformed @
          concat (map (wraps_of trace_malformed)
                    (takeWhile (\<lambda>p. count_list p CHR '':'' = 1) (str_split CHR '','' (strip ?s))))"
    by blast+
  from r(3) have a: "agent_calls (snd (patch_methods trace_malformed)) =
      map (Wrap_function_trace ''odoo.models'') limited"
    unfolding sp using c by (simp add: e wr)
  from r(2) have l: "\<exists>msg. logged (snd (patch_methods trace_malformed)) =
         [Info_applying_tracing [''odoo.models.BaseModel:limited'', ''odoo.models.BaseModel''],
          Exception (ValueError msg)]"
    unfolding sp by (simp add: e)
  show ?thesis
    using h sp c(1) nf r(1) l a by (simp add: limited_def)
qed

subsection \<open>The entry point\<close>














end
